theory Spec2Isabelle
  imports Main "HOL-Library.AList"
begin

section \<open>Strings\<close>

text \<open>
  Go strings are byte sequences; they are modelled as \<open>string\<close> (a list of bytes).
  Hostnames and probe specifications are taken to be ASCII.
\<close>

text \<open>
  \<^verbatim>\<open>strings.ToLower\<close> on ASCII text: the letters A to Z are mapped to a to z, every other
  byte is kept.
\<close>

definition toLowerByte :: "char \<Rightarrow> char" where
  "toLowerByte c =
     (case map_of (zip ''ABCDEFGHIJKLMNOPQRSTUVWXYZ'' ''abcdefghijklmnopqrstuvwxyz'') c of
        None \<Rightarrow> c
      | Some l \<Rightarrow> l)"

definition ToLower :: "string \<Rightarrow> string" where
  "ToLower s = map toLowerByte s"

text \<open>
  \<^verbatim>\<open>strings.SplitN(s, ":", 2)\<close>: the text before the first colon and the text after it, or
  the whole string alone when it has no colon.
\<close>

definition SplitN2 :: "string \<Rightarrow> string list" where
  "SplitN2 s =
     (if CHR '':'' \<in> set s
      then [takeWhile (\<lambda>c. c \<noteq> CHR '':'') s, tl (dropWhile (\<lambda>c. c \<noteq> CHR '':'') s)]
      else [s])"

text \<open>\<^verbatim>\<open>fmt.Sprintf("%s:%s", domain, port)\<close>\<close>

definition hostport :: "string \<Rightarrow> string \<Rightarrow> string" where
  "hostport domain port = domain @ '':'' @ port"

text \<open>
  \<^verbatim>\<open>fmt.Sprintf("%d", statusCode)\<close>: the decimal digits of the number, most significant
  first, after a minus sign when it is negative.
\<close>

definition digit :: "nat \<Rightarrow> char" where
  "digit d = ''0123456789'' ! d"

function dec :: "nat \<Rightarrow> string" where
  "dec n = (if n < 10 then [digit n] else dec (n div 10) @ [digit (n mod 10)])"
  by pat_completeness auto
termination
  by (relation "measure (\<lambda>n. n)") auto

declare dec.simps [simp del]

definition Sprintf_d :: "int \<Rightarrow> string" where
  "Sprintf_d i = (if i < 0 then CHR ''-'' # dec (nat (- i)) else dec (nat i))"

text \<open>The number that a string of decimal digits stands for.\<close>

definition digit_val :: "char \<Rightarrow> nat" where
  "digit_val c =
     (case map_of (zip ''0123456789'' [0, 1, 2, 3, 4, 5, 6, 7, 8, 9]) c of
        None \<Rightarrow> 0
      | Some d \<Rightarrow> d)"

definition undec :: "string \<Rightarrow> nat" where
  "undec s = foldl (\<lambda>a c. 10 * a + digit_val c) 0 s"

section \<open>The probe target expander (main.go, lines 184 to 227)\<close>

text \<open>The two work queues a target can be sent on.\<close>

datatype queue = httpsURLs | httpURLs

definition xlarge :: "string list" where
  "xlarge = [''81'', ''300'', ''591'', ''593'', ''832'', ''981'', ''1010'', ''1311'', ''2082'',
     ''2087'', ''2095'', ''2096'', ''2480'', ''3000'', ''3128'', ''3333'', ''4243'', ''4567'',
     ''4711'', ''4712'', ''4993'', ''5000'', ''5104'', ''5108'', ''5800'', ''6543'', ''7000'',
     ''7396'', ''7474'', ''8000'', ''8001'', ''8008'', ''8014'', ''8042'', ''8069'', ''8080'',
     ''8081'', ''8088'', ''8090'', ''8091'', ''8118'', ''8123'', ''8172'', ''8222'', ''8243'',
     ''8280'', ''8281'', ''8333'', ''8443'', ''8500'', ''8834'', ''8880'', ''8888'', ''8983'',
     ''9000'', ''9043'', ''9060'', ''9080'', ''9090'', ''9091'', ''9200'', ''9443'', ''9800'',
     ''9981'', ''12443'', ''16080'', ''18091'', ''18092'', ''20720'', ''28017'']"

definition large :: "string list" where
  "large = [''81'', ''591'', ''2082'', ''2087'', ''2095'', ''2096'', ''3000'', ''8000'',
     ''8001'', ''8008'', ''8080'', ''8083'', ''8443'', ''8834'', ''8888'']"

text \<open>
  The sends of a port template: for every port, \<open>domain:port\<close> goes onto the HTTPS queue and
  then onto the HTTP queue.
\<close>

definition template_sends :: "string \<Rightarrow> string list \<Rightarrow> (queue \<times> string) list" where
  "template_sends domain ports =
     concat (map (\<lambda>port. [(httpsURLs, hostport domain port), (httpURLs, hostport domain port)])
       ports)"

text \<open>
  The body of the \<^verbatim>\<open>switch p\<close> statement: the sends, in program order, that one probe
  specification causes for one domain.
\<close>

definition probe_sends :: "string \<Rightarrow> string \<Rightarrow> (queue \<times> string) list" where
  "probe_sends domain p =
     (if p = ''xlarge'' then template_sends domain xlarge
      else if p = ''large'' then template_sends domain large
      else
        (let pair = SplitN2 p in
         if length pair \<noteq> 2 then []
         else if ToLower (pair ! 0) = ''https'' then [(httpsURLs, hostport domain (pair ! 1))]
         else [(httpURLs, hostport domain (pair ! 1))]))"

text \<open>The sends for one (already lower-cased) domain: lines 189 to 226.\<close>

definition domain_sends :: "bool \<Rightarrow> string list \<Rightarrow> string \<Rightarrow> (queue \<times> string) list" where
  "domain_sends skipDefault probes domain =
     (if (\<not> skipDefault) \<and> length probes = 0
      then [(httpsURLs, domain), (httpURLs, domain)]
      else concat (map (probe_sends domain) probes))"

text \<open>The scanner loop: every input line is lower-cased and expanded, in input order.\<close>

definition scan_sends :: "bool \<Rightarrow> string list \<Rightarrow> string list \<Rightarrow> (queue \<times> string) list" where
  "scan_sends skipDefault probes input =
     concat (map (\<lambda>line. domain_sends skipDefault probes (ToLower line)) input)"

section \<open>The prober: getStatusAndRedirect (main.go, lines 304 to 329)\<close>

text \<open>
  What the function observes of \<^verbatim>\<open>net/http\<close>: \<^verbatim>\<open>http.NewRequest\<close> gives a request or an
  error; \<^verbatim>\<open>client.Do\<close> gives a response and no error, or an error (with a response only
  when the redirect policy failed). A response is its status code and its header, a map
  from canonical header names to their values.
\<close>

type_synonym error = string

record Request =
  Method :: string
  Target :: string
  ReqHeader :: "(string \<times> string) list"
  Close :: bool

record Response =
  resp_StatusCode :: int
  resp_Header :: "string \<rightharpoonup> string list"

datatype DoResult = Responded Response | Failed "Response option" error

record Client =
  NewRequest :: "string \<Rightarrow> string \<Rightarrow> error + Request"
  Do :: "Request \<Rightarrow> DoResult"

text \<open>\<^verbatim>\<open>Header.Get\<close>: the first value stored under the key, or the empty string.\<close>

definition Header_Get :: "(string \<rightharpoonup> string list) \<Rightarrow> string \<Rightarrow> string" where
  "Header_Get h key =
     (case h key of None \<Rightarrow> '''' | Some v \<Rightarrow> (if length v = 0 then '''' else v ! 0))"

text \<open>Lines 310 and 311: the request asks for the connection to be closed.\<close>

definition closing :: "Request \<Rightarrow> Request" where
  "closing req = req\<lparr>ReqHeader := ReqHeader req @ [(''Connection'', ''close'')], Close := True\<rparr>"

definition getStatusAndRedirect :: "Client \<Rightarrow> string \<Rightarrow> string \<Rightarrow> int \<times> string" where
  "getStatusAndRedirect client url method =
     (case NewRequest client method url of
        Inl err \<Rightarrow> (0, '''')
      | Inr req \<Rightarrow>
          (case Do client (closing req) of
             Failed resp err \<Rightarrow> (0, '''')
           | Responded resp \<Rightarrow>
               (let redirectedURL =
                      (if resp_StatusCode resp \<ge> 300 \<and> resp_StatusCode resp < 400
                       then Header_Get (resp_Header resp) ''Location'' else '''')
                in (resp_StatusCode resp, redirectedURL))))"

section \<open>The workers' probes (main.go, lines 104 to 125 and 137 to 151)\<close>

record Result =
  URL :: string
  StatusCode :: int
  RedirectedURL :: string

text \<open>
  What a worker does with the target it received, up to its next channel operation: it
  probes the target and builds a Result when the status code is not 0.
\<close>

definition https_probe :: "Client \<Rightarrow> string \<Rightarrow> string \<Rightarrow> Result option" where
  "https_probe client method url =
     (let withProto = ''https://'' @ url;
          (statusCode, redirectedURL) = getStatusAndRedirect client withProto method
      in if statusCode \<noteq> 0
         then Some \<lparr>URL = withProto, StatusCode = statusCode, RedirectedURL = redirectedURL\<rparr>
         else None)"

definition http_probe :: "Client \<Rightarrow> string \<Rightarrow> string \<Rightarrow> Result option" where
  "http_probe client method url =
     (let withProto = ''http://'' @ url;
          (statusCode, redirectedURL) = getStatusAndRedirect client withProto method
      in if statusCode \<noteq> 0
         then Some \<lparr>URL = withProto, StatusCode = statusCode, RedirectedURL = redirectedURL\<rparr>
         else None)"

section \<open>The aggregator (main.go, lines 164 to 174)\<close>

text \<open>
  The map from status code to the Results received under it, as an association list with
  one entry per key. A key that is absent reads as the empty slice.
\<close>

type_synonym ResultSet = "(int \<times> Result list) list"

definition bucket :: "ResultSet \<Rightarrow> int \<Rightarrow> Result list" where
  "bucket results code = (case map_of results code of None \<Rightarrow> [] | Some resList \<Rightarrow> resList)"

text \<open>\<^verbatim>\<open>results[res.StatusCode] = append(results[res.StatusCode], res)\<close>\<close>

definition collect :: "ResultSet \<Rightarrow> Result \<Rightarrow> ResultSet" where
  "collect results res =
     AList.update (StatusCode res) (bucket results (StatusCode res) @ [res]) results"

text \<open>The output worker's loop over the Results in the order they arrive.\<close>

definition aggregate :: "Result list \<Rightarrow> ResultSet" where
  "aggregate arrivals = foldl collect [] arrivals"

section \<open>The report writer: writeJSONFile (main.go, lines 259 to 301)\<close>

datatype json = JNull | JString string | JArray "json list" | JObject "(string \<times> json) list"

text \<open>One element of \<open>entries\<close>: lines 267 to 280.\<close>

definition entry :: "int \<Rightarrow> Result \<Rightarrow> json" where
  "entry statusCode res =
     (if statusCode \<ge> 300 \<and> statusCode < 400
      then JObject [(''url'', JString (URL res)), (''redirected_url'', JString (RedirectedURL res))]
      else JString (URL res))"

text \<open>
  The inner loop. \<open>entries\<close> starts as a nil slice, which the encoder writes as
  \<open>null\<close>; after one append it is an array.
\<close>

definition entries :: "int \<Rightarrow> Result list \<Rightarrow> json" where
  "entries statusCode resList =
     (if resList = [] then JNull else JArray (map (entry statusCode) resList))"

text \<open>The body of the outer loop: \<^verbatim>\<open>jsonData[codeStr] = entries\<close>.\<close>

definition put :: "(string \<times> json) list \<Rightarrow> int \<times> Result list \<Rightarrow> (string \<times> json) list" where
  "put data kv = AList.update (Sprintf_d (fst kv)) (entries (fst kv) (snd kv)) data"

text \<open>
  The outer loop visits every key of the map once, in no fixed order; the model visits
  them in the order of the association list.
\<close>

definition jsonData :: "ResultSet \<Rightarrow> (string \<times> json) list" where
  "jsonData results = foldl put [] results"

text \<open>What the file system does with the file: the two error returns, or the write.\<close>

datatype file_system = CreateFails | EncodeFails | FileWritten

text \<open>The document written to the file, if one is written.\<close>

definition writeJSONFile :: "file_system \<Rightarrow> ResultSet \<Rightarrow> (string \<times> json) list option" where
  "writeJSONFile fs results =
     (let data = jsonData results in
      case fs of CreateFails \<Rightarrow> None | EncodeFails \<Rightarrow> None | FileWritten \<Rightarrow> Some data)"

section \<open>The pipeline (main.go, lines 94 to 240)\<close>

text \<open>
  The goroutines of \<open>main\<close> and the three unbuffered channels, as a transition system.
  A state holds where each goroutine stands at its next channel operation.

  The main goroutine is scanning with the sends still to do (in program order), or it has
  closed \<open>httpsURLs\<close> and waits for the output worker, or it has gone on to write the file.
\<close>

datatype Main = Scanning "(queue \<times> string) list" | Waiting | Exited

text \<open>
  An HTTPS worker is at the head of its loop (receiving from \<open>httpsURLs\<close>), at the send
  of a Result on \<open>output\<close> (line 112), at the send of its target on \<open>httpURLs\<close> (line 124),
  or it has left the loop and called \<open>httpsWG.Done\<close>.
\<close>

datatype HTTPSWorker = AtRange | AtOutput Result string | AtForward string | Returned

text \<open>An HTTP worker: receiving from \<open>httpURLs\<close>, sending on \<open>output\<close> (line 144), or done.\<close>

datatype HTTPWorker = HttpAtRange | HttpAtOutput Result | HttpReturned

text \<open>
  \<open>probed\<close> records the URLs handed to getStatusAndRedirect, oldest first; \<open>panicked\<close> is
  set when a goroutine sends on a closed channel, which ends the process.
\<close>

record State =
  main :: Main
  httpsWorkers :: "HTTPSWorker list"
  httpWorkers :: "HTTPWorker list"
  httpsURLs_closed :: bool
  httpURLs_closed :: bool
  output_closed :: bool
  results :: ResultSet
  probed :: "string list"
  panicked :: bool

text \<open>
  The state when the scanner loop starts: \<open>concurrency/2\<close> workers in each pool (none when
  \<open>concurrency\<close> is below 2), all channels open.
\<close>

definition init :: "int \<Rightarrow> (queue \<times> string) list \<Rightarrow> State" where
  "init concurrency sends =
     \<lparr>main = Scanning sends,
      httpsWorkers = replicate (nat (concurrency div 2)) AtRange,
      httpWorkers = replicate (nat (concurrency div 2)) HttpAtRange,
      httpsURLs_closed = False,
      httpURLs_closed = False,
      output_closed = False,
      results = [],
      probed = [],
      panicked = False\<rparr>"

text \<open>Where a worker stands after it has received a target and probed it.\<close>

definition https_received :: "Client \<Rightarrow> string \<Rightarrow> string \<Rightarrow> HTTPSWorker" where
  "https_received client method url =
     (case https_probe client method url of
        Some res \<Rightarrow> AtOutput res url
      | None \<Rightarrow> AtForward url)"

definition http_received :: "Client \<Rightarrow> string \<Rightarrow> string \<Rightarrow> HTTPWorker" where
  "http_received client method url =
     (case http_probe client method url of
        Some res \<Rightarrow> HttpAtOutput res
      | None \<Rightarrow> HttpAtRange)"

text \<open>
  The steps. A send and the matching receive happen together (the channels are
  unbuffered). A step that hands a target to a worker names the worker and carries the
  behaviour of the network during that worker's probe.
\<close>

datatype Action =
    SendHTTPS nat Client
  | SendHTTP nat Client
  | CloseHTTPS
  | EmitHTTPS nat
  | Forward nat nat Client
  | ReturnHTTPS nat
  | EmitHTTP nat
  | ReturnHTTP nat
  | CloseHTTP
  | CloseOutput
  | Exit

text \<open>A send on a closed channel.\<close>

definition panic :: "State \<Rightarrow> State option" where
  "panic s = Some (s\<lparr>panicked := True\<rparr>)"

text \<open>HTTP worker \<open>j\<close> receives \<open>url\<close> from \<open>httpURLs\<close> and probes it.\<close>

definition http_receive :: "string \<Rightarrow> State \<Rightarrow> nat \<Rightarrow> Client \<Rightarrow> string \<Rightarrow> State option" where
  "http_receive method s j client url =
     (if j < length (httpWorkers s) \<and> httpWorkers s ! j = HttpAtRange
      then Some (s\<lparr>httpWorkers := (httpWorkers s)[j := http_received client method url],
                  probed := probed s @ [''http://'' @ url]\<rparr>)
      else None)"

text \<open>The main goroutine's next send, on queue \<open>q\<close>, received by worker \<open>k\<close> of that queue.\<close>

definition main_send :: "string \<Rightarrow> State \<Rightarrow> queue \<Rightarrow> nat \<Rightarrow> Client \<Rightarrow> State option" where
  "main_send method s q k client =
     (case main s of
        Scanning ((q', url) # rest) \<Rightarrow>
          if q' \<noteq> q then None
          else (case q of
                  httpsURLs \<Rightarrow>
                    if httpsURLs_closed s then panic s
                    else if k < length (httpsWorkers s) \<and> httpsWorkers s ! k = AtRange
                    then Some (s\<lparr>main := Scanning rest,
                         httpsWorkers := (httpsWorkers s)[k := https_received client method url],
                         probed := probed s @ [''https://'' @ url]\<rparr>)
                    else None
                | httpURLs \<Rightarrow>
                    if httpURLs_closed s then panic s
                    else http_receive method (s\<lparr>main := Scanning rest\<rparr>) k client url)
      | _ \<Rightarrow> None)"

text \<open>Line 232: all sends done, the main goroutine closes \<open>httpsURLs\<close>.\<close>

definition main_close :: "State \<Rightarrow> State option" where
  "main_close s =
     (case main s of
        Scanning [] \<Rightarrow> Some (s\<lparr>main := Waiting, httpsURLs_closed := True\<rparr>)
      | _ \<Rightarrow> None)"

text \<open>
  Lines 112 to 121: HTTPS worker \<open>i\<close> hands its Result to the output worker, which files
  it; then the worker goes back to the head of its loop when \<open>preferHTTPS\<close> is set, and on
  to the send on \<open>httpURLs\<close> otherwise.
\<close>

definition https_emit :: "bool \<Rightarrow> State \<Rightarrow> nat \<Rightarrow> State option" where
  "https_emit preferHTTPS s i =
     (if i < length (httpsWorkers s)
      then (case httpsWorkers s ! i of
              AtOutput res url \<Rightarrow>
                if output_closed s then panic s
                else Some (s\<lparr>results := collect (results s) res,
                     httpsWorkers :=
                       (httpsWorkers s)[i := if preferHTTPS then AtRange else AtForward url]\<rparr>)
            | _ \<Rightarrow> None)
      else None)"

text \<open>Line 124: HTTPS worker \<open>i\<close> sends its target on \<open>httpURLs\<close>, HTTP worker \<open>j\<close> receives it.\<close>

definition https_forward :: "string \<Rightarrow> State \<Rightarrow> nat \<Rightarrow> nat \<Rightarrow> Client \<Rightarrow> State option" where
  "https_forward method s i j client =
     (if i < length (httpsWorkers s)
      then (case httpsWorkers s ! i of
              AtForward url \<Rightarrow>
                if httpURLs_closed s then panic s
                else http_receive method (s\<lparr>httpsWorkers := (httpsWorkers s)[i := AtRange]\<rparr>)
                       j client url
            | _ \<Rightarrow> None)
      else None)"

text \<open>Line 127: the loop over the closed \<open>httpsURLs\<close> ends.\<close>

definition https_return :: "State \<Rightarrow> nat \<Rightarrow> State option" where
  "https_return s i =
     (if i < length (httpsWorkers s) \<and> httpsWorkers s ! i = AtRange \<and> httpsURLs_closed s
      then Some (s\<lparr>httpsWorkers := (httpsWorkers s)[i := Returned]\<rparr>)
      else None)"

text \<open>Lines 144 to 149: HTTP worker \<open>j\<close> hands its Result to the output worker.\<close>

definition http_emit :: "State \<Rightarrow> nat \<Rightarrow> State option" where
  "http_emit s j =
     (if j < length (httpWorkers s)
      then (case httpWorkers s ! j of
              HttpAtOutput res \<Rightarrow>
                if output_closed s then panic s
                else Some (s\<lparr>results := collect (results s) res,
                     httpWorkers := (httpWorkers s)[j := HttpAtRange]\<rparr>)
            | _ \<Rightarrow> None)
      else None)"

text \<open>Line 153: the loop over the closed \<open>httpURLs\<close> ends.\<close>

definition http_return :: "State \<Rightarrow> nat \<Rightarrow> State option" where
  "http_return s j =
     (if j < length (httpWorkers s) \<and> httpWorkers s ! j = HttpAtRange \<and> httpURLs_closed s
      then Some (s\<lparr>httpWorkers := (httpWorkers s)[j := HttpReturned]\<rparr>)
      else None)"

text \<open>
  Lines 158 to 161: \<open>httpsWG.Wait\<close> returns when every HTTPS worker has called \<open>Done\<close>
  (at once when there is no worker); then \<open>httpURLs\<close> is closed.
\<close>

definition close_httpURLs :: "State \<Rightarrow> State option" where
  "close_httpURLs s =
     (if list_all (\<lambda>w. w = Returned) (httpsWorkers s) \<and> \<not> httpURLs_closed s
      then Some (s\<lparr>httpURLs_closed := True\<rparr>)
      else None)"

text \<open>Lines 177 to 180: the same for the HTTP workers and \<open>output\<close>.\<close>

definition close_output :: "State \<Rightarrow> State option" where
  "close_output s =
     (if list_all (\<lambda>w. w = HttpReturned) (httpWorkers s) \<and> \<not> output_closed s
      then Some (s\<lparr>output_closed := True\<rparr>)
      else None)"

text \<open>
  Line 240: the output worker's loop ends when \<open>output\<close> is closed, \<open>outputWG.Wait\<close>
  returns and the main goroutine goes on to write the file.
\<close>

definition main_exit :: "State \<Rightarrow> State option" where
  "main_exit s =
     (if main s = Waiting \<and> output_closed s then Some (s\<lparr>main := Exited\<rparr>) else None)"

text \<open>One step; \<open>None\<close> when the step cannot be taken in the state.\<close>

definition fire :: "bool \<Rightarrow> string \<Rightarrow> State \<Rightarrow> Action \<Rightarrow> State option" where
  "fire preferHTTPS method s a =
     (if panicked s then None
      else (case a of
              SendHTTPS i client \<Rightarrow> main_send method s httpsURLs i client
            | SendHTTP j client \<Rightarrow> main_send method s httpURLs j client
            | CloseHTTPS \<Rightarrow> main_close s
            | EmitHTTPS i \<Rightarrow> https_emit preferHTTPS s i
            | Forward i j client \<Rightarrow> https_forward method s i j client
            | ReturnHTTPS i \<Rightarrow> https_return s i
            | EmitHTTP j \<Rightarrow> http_emit s j
            | ReturnHTTP j \<Rightarrow> http_return s j
            | CloseHTTP \<Rightarrow> close_httpURLs s
            | CloseOutput \<Rightarrow> close_output s
            | Exit \<Rightarrow> main_exit s))"

text \<open>A run: the state after a sequence of steps, if every one of them can be taken.\<close>

fun run :: "bool \<Rightarrow> string \<Rightarrow> State \<Rightarrow> Action list \<Rightarrow> State option" where
  "run preferHTTPS method s [] = Some s"
| "run preferHTTPS method s (a # as) =
     (case fire preferHTTPS method s a of
        None \<Rightarrow> None
      | Some s' \<Rightarrow> run preferHTTPS method s' as)"

section \<open>Predicates on states and runs\<close>

text \<open>The sends the main goroutine still has to do.\<close>

definition pending :: "State \<Rightarrow> (queue \<times> string) list" where
  "pending s = (case main s of Scanning sends \<Rightarrow> sends | _ \<Rightarrow> [])"

text \<open>
  The order of the shutdown: \<open>httpURLs\<close> is closed only when every HTTPS worker has
  returned, \<open>output\<close> only when every HTTP worker has returned.
\<close>

definition ordered :: "State \<Rightarrow> bool" where
  "ordered s \<longleftrightarrow>
     (if httpURLs_closed s then list_all (\<lambda>w. w = Returned) (httpsWorkers s) else True) \<and>
     (if output_closed s then list_all (\<lambda>w. w = HttpReturned) (httpWorkers s) else True)"

text \<open>
  A worker returns only from a closed queue, \<open>httpsURLs\<close> is closed only after the last
  send of the main goroutine, and the main goroutine leaves only after \<open>output\<close> is closed.
\<close>

definition drained :: "State \<Rightarrow> bool" where
  "drained s \<longleftrightarrow>
     (if Returned \<in> set (httpsWorkers s) then httpsURLs_closed s else True) \<and>
     (if httpsURLs_closed s then main s = Waiting \<or> main s = Exited else True) \<and>
     (if HttpReturned \<in> set (httpWorkers s) then httpURLs_closed s else True) \<and>
     (if main s = Exited then output_closed s else True)"

definition pools :: "nat \<Rightarrow> State \<Rightarrow> bool" where
  "pools n s \<longleftrightarrow> length (httpsWorkers s) = n \<and> length (httpWorkers s) = n"

definition shutdown_inv :: "nat \<Rightarrow> State \<Rightarrow> bool" where
  "shutdown_inv n s \<longleftrightarrow> ordered s \<and> drained s \<and> pools n s \<and> \<not> panicked s"

text \<open>
  \<^verbatim>\<open>net/http\<close> reads a status code of three digits and refuses a negative one: the
  responses it returns have a status code of 0 or more.
\<close>

definition nonneg_status :: "Client \<Rightarrow> bool" where
  "nonneg_status client \<longleftrightarrow>
     (\<forall>req resp. Do client req = Responded resp \<longrightarrow> 0 \<le> resp_StatusCode resp)"

text \<open>The network behaviour that a step carries, if it carries one, satisfies \<open>Q\<close>.\<close>

definition answers :: "(Client \<Rightarrow> bool) \<Rightarrow> Action \<Rightarrow> bool" where
  "answers Q a =
     (case a of
        SendHTTPS i client \<Rightarrow> Q client
      | SendHTTP j client \<Rightarrow> Q client
      | Forward i j client \<Rightarrow> Q client
      | _ \<Rightarrow> True)"

text \<open>
  Every Result filed in the ResultSet, under its own status code, and every Result a
  worker is about to send has a status code that satisfies \<open>P\<close>.
\<close>

definition bucket_ok :: "(int \<Rightarrow> bool) \<Rightarrow> int \<times> Result list \<Rightarrow> bool" where
  "bucket_ok P kv \<longleftrightarrow> P (fst kv) \<and> list_all (\<lambda>r. StatusCode r = fst kv) (snd kv)"

definition https_ok :: "(int \<Rightarrow> bool) \<Rightarrow> HTTPSWorker \<Rightarrow> bool" where
  "https_ok P w = (case w of AtOutput res url \<Rightarrow> P (StatusCode res) | _ \<Rightarrow> True)"

definition http_ok :: "(int \<Rightarrow> bool) \<Rightarrow> HTTPWorker \<Rightarrow> bool" where
  "http_ok P w = (case w of HttpAtOutput res \<Rightarrow> P (StatusCode res) | _ \<Rightarrow> True)"

definition codes_ok :: "(int \<Rightarrow> bool) \<Rightarrow> State \<Rightarrow> bool" where
  "codes_ok P s \<longleftrightarrow>
     list_all (bucket_ok P) (results s) \<and>
     list_all (https_ok P) (httpsWorkers s) \<and>
     list_all (http_ok P) (httpWorkers s)"

text \<open>
  Every target the expander sent on \<open>httpURLs\<close> is still to be sent or has been probed
  over HTTP.
\<close>

definition direct_http :: "(queue \<times> string) list \<Rightarrow> State \<Rightarrow> bool" where
  "direct_http sends s \<longleftrightarrow>
     list_all (\<lambda>qt. fst qt = httpsURLs \<or> qt \<in> set (pending s) \<or>
                    ''http://'' @ snd qt \<in> set (probed s)) sends"

text \<open>
  Nothing has happened yet: there is no worker, the main goroutine still has all its
  sends to do, nothing was probed and no Result was filed.
\<close>

definition idle :: "(queue \<times> string) list \<Rightarrow> State \<Rightarrow> bool" where
  "idle sends s \<longleftrightarrow>
     httpsWorkers s = [] \<and> httpWorkers s = [] \<and> main s = Scanning sends \<and>
     probed s = [] \<and> results s = []"

section \<open>Concrete inputs\<close>

text \<open>A well-formed request, and networks that answer every request the same way.\<close>

definition request :: "string \<Rightarrow> string \<Rightarrow> error + Request" where
  "request method url = Inr \<lparr>Method = method, Target = url, ReqHeader = [], Close = False\<rparr>"

definition responding :: "int \<Rightarrow> (string \<rightharpoonup> string list) \<Rightarrow> Client" where
  "responding code header =
     \<lparr>NewRequest = request,
      Do = (\<lambda>req. Responded \<lparr>resp_StatusCode = code, resp_Header = header\<rparr>)\<rparr>"

definition failing :: "error \<Rightarrow> Client" where
  "failing err = \<lparr>NewRequest = request, Do = (\<lambda>req. Failed None err)\<rparr>"

definition rejecting :: "error \<Rightarrow> Client" where
  "rejecting err = \<lparr>NewRequest = (\<lambda>method url. Inl err), Do = (\<lambda>req. Failed None err)\<rparr>"

definition arrivals0 :: "Result list" where
  "arrivals0 =
     [\<lparr>URL = ''https://a.test'', StatusCode = 200, RedirectedURL = ''''\<rparr>,
      \<lparr>URL = ''http://b.test'', StatusCode = 301, RedirectedURL = ''https://b.test/''\<rparr>,
      \<lparr>URL = ''http://a.test'', StatusCode = 200, RedirectedURL = ''''\<rparr>]"

definition doc0 :: "(string \<times> json) list" where
  "doc0 =
     [(''200'', JArray [JString ''https://a.test'', JString ''http://a.test'']),
      (''301'', JArray [JObject [(''url'', JString ''http://b.test''),
                                 (''redirected_url'', JString ''https://b.test/'')]])]"

text \<open>
  A complete run with concurrency 2 (one worker in each pool) on the input line
  \<open>example.com\<close>, with the default probes and \<open>preferHTTPS\<close> set: the HTTPS probe is
  answered with 200, the HTTP probe fails.
\<close>

definition run0 :: "Action list" where
  "run0 =
     [SendHTTPS 0 (responding 200 Map.empty), EmitHTTPS 0,
      SendHTTP 0 (failing ''connection refused''),
      CloseHTTPS, ReturnHTTPS 0, CloseHTTP, ReturnHTTP 0, CloseOutput, Exit]"

definition state0 :: State where
  "state0 =
     \<lparr>main = Exited, httpsWorkers = [Returned], httpWorkers = [HttpReturned],
      httpsURLs_closed = True, httpURLs_closed = True, output_closed = True,
      results = [(200, [\<lparr>URL = ''https://example.com'', StatusCode = 200, RedirectedURL = ''''\<rparr>])],
      probed = [''https://example.com'', ''http://example.com''],
      panicked = False\<rparr>"

lemmas fire_defs = fire_def main_send_def main_close_def https_emit_def https_forward_def
  https_return_def http_emit_def http_return_def close_httpURLs_def close_output_def
  main_exit_def http_receive_def panic_def https_received_def http_received_def
  https_probe_def http_probe_def getStatusAndRedirect_def closing_def

lemmas eval_defs = init_def scan_sends_def domain_sends_def probe_sends_def SplitN2_def
  hostport_def ToLower_def toLowerByte_def responding_def failing_def request_def
  Header_Get_def collect_def bucket_def

section \<open>Properties of the expander\<close>

lemma SplitN2_colon:
  "CHR '':'' \<notin> set proto \<Longrightarrow> SplitN2 (proto @ '':'' @ port) = [proto, port]"
proof -
  assume nc: "CHR '':'' \<notin> set proto"
  have tw: "takeWhile (\<lambda>c. c \<noteq> CHR '':'') (proto @ CHR '':'' # port) = proto"
    using nc by (induction proto) auto
  have dw: "dropWhile (\<lambda>c. c \<noteq> CHR '':'') (proto @ CHR '':'' # port) = CHR '':'' # port"
    using nc by (induction proto) auto
  show ?thesis
    by (simp add: SplitN2_def tw dw)
qed

lemma SplitN2_no_colon: "CHR '':'' \<notin> set p \<Longrightarrow> SplitN2 p = [p]"
  by (simp add: SplitN2_def)

lemma colon_not_template:
  "CHR '':'' \<in> set p \<Longrightarrow> p \<noteq> ''xlarge'' \<and> p \<noteq> ''large''"
  by auto

lemma probe_sends_target:
  "(q, t) \<in> set (probe_sends domain p) \<Longrightarrow> \<exists>x. t = domain @ CHR '':'' # x"
  by (auto simp: probe_sends_def template_sends_def hostport_def Let_def split: if_splits)

lemma probes_never_bare:
  "(q, domain) \<notin> set (concat (map (probe_sends domain) ps))"
  by (auto dest: probe_sends_target)

text \<open>
  C7. A well-formed explicit specification \<open>proto:port\<close> (the protocol part holding no colon)
  sends \<open>domain:port\<close> on the HTTPS queue alone when the lower-cased protocol is \<open>https\<close>,
  and on the HTTP queue alone for every other protocol.
\<close>

theorem explicit_probe_routing:
  "CHR '':'' \<notin> set proto \<Longrightarrow>
   probe_sends domain (proto @ '':'' @ port) =
     (if ToLower proto = ''https'' then [(httpsURLs, domain @ '':'' @ port)]
      else [(httpURLs, domain @ '':'' @ port)])"
proof -
  assume nc: "CHR '':'' \<notin> set proto"
  have "CHR '':'' \<in> set (proto @ '':'' @ port)" by simp
  then have "proto @ '':'' @ port \<noteq> ''xlarge'' \<and> proto @ '':'' @ port \<noteq> ''large''"
    by (rule colon_not_template)
  then show ?thesis
    using SplitN2_colon [OF nc, of port] by (simp add: probe_sends_def hostport_def)
qed

theorem explicit_probe_routing_witness:
  "probe_sends ''bar.test'' ''HTTPS:8443'' = [(httpsURLs, ''bar.test:8443'')] \<and>
   probe_sends ''bar.test'' ''http:8080'' = [(httpURLs, ''bar.test:8080'')] \<and>
   probe_sends ''bar.test'' ''ftp:21'' = [(httpURLs, ''bar.test:21'')]"
  using explicit_probe_routing [of "''HTTPS''" "''bar.test''" "''8443''"]
    explicit_probe_routing [of "''http''" "''bar.test''" "''8080''"]
    explicit_probe_routing [of "''ftp''" "''bar.test''" "''21''"]
  by (simp add: ToLower_def toLowerByte_def)

text \<open>
  C8. A specification with no colon that is not a template name sends nothing, and the
  run goes on: for every input line the sends are those of the other specifications.
\<close>

theorem malformed_probe_skipped:
  "CHR '':'' \<notin> set p \<Longrightarrow> p \<noteq> ''xlarge'' \<Longrightarrow> p \<noteq> ''large'' \<Longrightarrow>
   probe_sends domain p = [] \<and>
   domain_sends skip (ps @ p # qs) domain = concat (map (probe_sends domain) (ps @ qs)) \<and>
   scan_sends skip (ps @ p # qs) input =
     concat (map (\<lambda>line. concat (map (probe_sends (ToLower line)) (ps @ qs))) input)"
proof -
  assume nc: "CHR '':'' \<notin> set p" and nx: "p \<noteq> ''xlarge''" and nl: "p \<noteq> ''large''"
  have none: "probe_sends d p = []" for d
    using nx nl SplitN2_no_colon [OF nc] by (simp add: probe_sends_def)
  have dom: "domain_sends skip (ps @ p # qs) d = concat (map (probe_sends d) (ps @ qs))"
    for d
    by (simp add: domain_sends_def none)
  show ?thesis
    by (simp add: none dom scan_sends_def)
qed

theorem malformed_probe_skipped_witness:
  "probe_sends ''foo.test'' ''noport'' = [] \<and>
   domain_sends False [''noport''] ''foo.test'' = [] \<and>
   scan_sends False [''https:8443'', ''noport'', ''http:81''] [''Foo.test'', ''bar.test''] =
     [(httpsURLs, ''foo.test:8443''), (httpURLs, ''foo.test:81''),
      (httpsURLs, ''bar.test:8443''), (httpURLs, ''bar.test:81'')]"
proof -
  have a: "CHR '':'' \<notin> set ''noport''" by simp
  have b: "''noport'' \<noteq> ''xlarge''" by simp
  have c: "''noport'' \<noteq> ''large''" by simp
  show ?thesis
    using malformed_probe_skipped [OF a b c, of "''foo.test''" False "[]" "[]" "[]"]
      malformed_probe_skipped [OF a b c, of "''foo.test''" False "[''https:8443'']"
        "[''http:81'']" "[''Foo.test'', ''bar.test'']"]
    by (simp add: probe_sends_def SplitN2_def hostport_def ToLower_def toLowerByte_def)
qed

text \<open>
  C9. The bare domain is sent (on the HTTPS queue, and on the HTTP queue) exactly when
  \<open>skipDefault\<close> is false and no probe specification was given; then it is sent on both
  queues and nothing else is. Any probe specification suppresses the default sends, and
  with \<open>skipDefault\<close> true and no specification nothing at all is sent.
\<close>

theorem default_probes_iff:
  "((httpsURLs, domain) \<in> set (domain_sends skip ps domain) \<longleftrightarrow> \<not> skip \<and> ps = []) \<and>
   ((httpURLs, domain) \<in> set (domain_sends skip ps domain) \<longleftrightarrow> \<not> skip \<and> ps = []) \<and>
   (\<not> skip \<and> ps = [] \<longrightarrow>
      domain_sends skip ps domain = [(httpsURLs, domain), (httpURLs, domain)]) \<and>
   (ps \<noteq> [] \<longrightarrow> domain_sends skip ps domain = concat (map (probe_sends domain) ps)) \<and>
   (skip \<and> ps = [] \<longrightarrow> domain_sends skip ps domain = [])"
  using probes_never_bare [of httpsURLs domain ps] probes_never_bare [of httpURLs domain ps]
  by (auto simp: domain_sends_def)

theorem default_probes_iff_witness:
  "domain_sends False [] ''example.com'' =
     [(httpsURLs, ''example.com''), (httpURLs, ''example.com'')] \<and>
   domain_sends False [''https:8443''] ''example.com'' = [(httpsURLs, ''example.com:8443'')] \<and>
   (httpURLs, ''example.com'') \<notin> set (domain_sends False [''https:8443''] ''example.com'') \<and>
   domain_sends True [] ''example.com'' = []"
  using default_probes_iff [of "''example.com''" False "[]"]
    default_probes_iff [of "''example.com''" False "[''https:8443'']"]
    default_probes_iff [of "''example.com''" True "[]"]
  by (simp add: probe_sends_def SplitN2_def hostport_def ToLower_def toLowerByte_def)

text \<open>
  C10. Port 8083 is in the \<open>large\<close> list and not in the \<open>xlarge\<close> list, so for every domain
  the \<open>large\<close> template sends a target that the \<open>xlarge\<close> template does not send: the
  targets of \<open>xlarge\<close> do not include those of \<open>large\<close>.
\<close>

theorem large_not_within_xlarge:
  "''8083'' \<in> set large \<and> ''8083'' \<notin> set xlarge \<and>
   (httpsURLs, domain @ '':8083'') \<in> set (domain_sends skip [''large''] domain) \<and>
   (httpsURLs, domain @ '':8083'') \<notin> set (domain_sends skip [''xlarge''] domain) \<and>
   (httpURLs, domain @ '':8083'') \<in> set (domain_sends skip [''large''] domain) \<and>
   (httpURLs, domain @ '':8083'') \<notin> set (domain_sends skip [''xlarge''] domain) \<and>
   \<not> set (domain_sends skip [''large''] domain) \<subseteq> set (domain_sends skip [''xlarge''] domain)"
proof -
  have a: "''8083'' \<in> set large" by (simp add: large_def)
  have b: "''8083'' \<notin> set xlarge" by (simp add: xlarge_def)
  have tmpl: "(q, domain @ '':'' @ port) \<in> set (template_sends domain ports) \<longleftrightarrow> port \<in> set ports"
    for q port ports
    by (cases q) (auto simp: template_sends_def hostport_def)
  have l: "domain_sends skip [''large''] domain = template_sends domain large"
    by (simp add: domain_sends_def probe_sends_def)
  have x: "domain_sends skip [''xlarge''] domain = template_sends domain xlarge"
    by (simp add: domain_sends_def probe_sends_def)
  have inl: "(q, domain @ '':8083'') \<in> set (template_sends domain large)" for q
    using tmpl [of q "''8083''" large] a by simp
  have notx: "(q, domain @ '':8083'') \<notin> set (template_sends domain xlarge)" for q
    using tmpl [of q "''8083''" xlarge] b by simp
  show ?thesis
    using a b inl notx unfolding l x by blast
qed

section \<open>Properties of the prober\<close>

lemma getStatusAndRedirect_cases:
  "getStatusAndRedirect client url method = (code, loc) \<Longrightarrow>
   (code = 0 \<and> loc = '''') \<or>
   (\<exists>req resp. NewRequest client method url = Inr req \<and> Do client (closing req) = Responded resp \<and>
      code = resp_StatusCode resp \<and>
      loc = (if 300 \<le> code \<and> code < 400 then Header_Get (resp_Header resp) ''Location'' else ''''))"
  by (auto simp: getStatusAndRedirect_def Let_def split: sum.splits DoResult.splits if_splits)

lemma redirect_needs_3xx:
  "getStatusAndRedirect client url method = (code, loc) \<Longrightarrow> loc \<noteq> '''' \<Longrightarrow>
   300 \<le> code \<and> code < 400"
  by (auto dest!: getStatusAndRedirect_cases split: if_splits)

text \<open>
  C2, as amended. The redirect string that getStatusAndRedirect returns is non-empty only
  if the status code it returns is in [300,400): for a response with such a status code
  it is the value of the Location header, which is empty when the response has none, and
  for every other response it is empty. The same holds of the RedirectedURL and the
  StatusCode of every Result a worker builds.
\<close>

theorem redirect_only_for_3xx:
  "(snd (getStatusAndRedirect client url method) \<noteq> '''' \<longrightarrow>
      300 \<le> fst (getStatusAndRedirect client url method) \<and>
      fst (getStatusAndRedirect client url method) < 400) \<and>
   (NewRequest client method url = Inr req \<and> Do client (closing req) = Responded resp \<longrightarrow>
      getStatusAndRedirect client url method =
        (resp_StatusCode resp,
         if 300 \<le> resp_StatusCode resp \<and> resp_StatusCode resp < 400
         then Header_Get (resp_Header resp) ''Location'' else '''')) \<and>
   (https_probe client method target = Some r \<and> RedirectedURL r \<noteq> '''' \<longrightarrow>
      300 \<le> StatusCode r \<and> StatusCode r < 400) \<and>
   (http_probe client method target = Some r \<and> RedirectedURL r \<noteq> '''' \<longrightarrow>
      300 \<le> StatusCode r \<and> StatusCode r < 400)"
proof -
  have b: "snd (getStatusAndRedirect client url method) \<noteq> '''' \<longrightarrow>
      300 \<le> fst (getStatusAndRedirect client url method) \<and>
      fst (getStatusAndRedirect client url method) < 400"
    using redirect_needs_3xx [of client url _ "fst (getStatusAndRedirect client url method)"
        "snd (getStatusAndRedirect client url method)"] by simp
  have c: "NewRequest client method url = Inr req \<and> Do client (closing req) = Responded resp \<longrightarrow>
      getStatusAndRedirect client url method =
        (resp_StatusCode resp,
         if 300 \<le> resp_StatusCode resp \<and> resp_StatusCode resp < 400
         then Header_Get (resp_Header resp) ''Location'' else '''')"
    by (simp add: getStatusAndRedirect_def)
  have d: "https_probe client method target = Some r \<and> RedirectedURL r \<noteq> '''' \<longrightarrow>
      300 \<le> StatusCode r \<and> StatusCode r < 400"
    using redirect_needs_3xx [of client "''https://'' @ target"]
    by (cases "getStatusAndRedirect client (''https://'' @ target) method")
      (auto simp: https_probe_def split: if_splits)
  have e: "http_probe client method target = Some r \<and> RedirectedURL r \<noteq> '''' \<longrightarrow>
      300 \<le> StatusCode r \<and> StatusCode r < 400"
    using redirect_needs_3xx [of client "''http://'' @ target"]
    by (cases "getStatusAndRedirect client (''http://'' @ target) method")
      (auto simp: http_probe_def split: if_splits)
  show ?thesis using b c d e by blast
qed

theorem redirect_only_for_3xx_witness:
  "getStatusAndRedirect (responding 301 [''Location'' \<mapsto> [''https://foo.test/'']])
     ''http://foo.test'' ''GET'' = (301, ''https://foo.test/'') \<and>
   http_probe (responding 301 [''Location'' \<mapsto> [''https://foo.test/'']]) ''GET'' ''foo.test'' =
     Some \<lparr>URL = ''http://foo.test'', StatusCode = 301, RedirectedURL = ''https://foo.test/''\<rparr> \<and>
   https_probe (responding 302 [''Location'' \<mapsto> [''/login'']]) ''GET'' ''foo.test'' =
     Some \<lparr>URL = ''https://foo.test'', StatusCode = 302, RedirectedURL = ''/login''\<rparr> \<and>
   (300::int) \<le> 301 \<and> (301::int) < 400 \<and> (300::int) \<le> 302 \<and> (302::int) < 400"
  using redirect_only_for_3xx [of "responding 301 [''Location'' \<mapsto> [''https://foo.test/'']]"
      "''http://foo.test''" "''GET''"
      "\<lparr>Method = ''GET'', Target = ''http://foo.test'', ReqHeader = [], Close = False\<rparr>"
      "\<lparr>resp_StatusCode = 301, resp_Header = [''Location'' \<mapsto> [''https://foo.test/'']]\<rparr>"
      "''foo.test''"
      "\<lparr>URL = ''http://foo.test'', StatusCode = 301, RedirectedURL = ''https://foo.test/''\<rparr>"]
    redirect_only_for_3xx [of "responding 302 [''Location'' \<mapsto> [''/login'']]"
      "''http://foo.test''" "''GET''"
      "\<lparr>Method = ''GET'', Target = ''http://foo.test'', ReqHeader = [], Close = False\<rparr>"
      "\<lparr>resp_StatusCode = 302, resp_Header = [''Location'' \<mapsto> [''/login'']]\<rparr>"
      "''foo.test''"
      "\<lparr>URL = ''https://foo.test'', StatusCode = 302, RedirectedURL = ''/login''\<rparr>"]
  by (simp add: http_probe_def https_probe_def getStatusAndRedirect_def responding_def
      request_def Header_Get_def closing_def)

text \<open>
  C2 as stated fails: a response with status 304 and no Location header gives the pair
  (304, empty string), and the HTTP worker builds a Result with StatusCode 304 and an
  empty RedirectedURL.
\<close>

theorem redirect_iff_3xx_counterexample:
  "getStatusAndRedirect (responding 304 Map.empty) ''http://foo.test'' ''GET'' = (304, '''') \<and>
   http_probe (responding 304 Map.empty) ''GET'' ''foo.test'' =
     Some \<lparr>URL = ''http://foo.test'', StatusCode = 304, RedirectedURL = ''''\<rparr> \<and>
   \<not> (snd (getStatusAndRedirect (responding 304 Map.empty) ''http://foo.test'' ''GET'') \<noteq> ''''
        \<longleftrightarrow> 300 \<le> fst (getStatusAndRedirect (responding 304 Map.empty) ''http://foo.test'' ''GET'')
          \<and> fst (getStatusAndRedirect (responding 304 Map.empty) ''http://foo.test'' ''GET'') < 400)"
  by (simp add: http_probe_def getStatusAndRedirect_def responding_def request_def Header_Get_def)

text \<open>
  C5. When the request cannot be built, or the transport fails (with or without a
  response), getStatusAndRedirect returns exactly (0, empty string); and whenever the
  status code it returns is 0, the redirect string it returns is empty.
\<close>

theorem failure_gives_sentinel:
  "(NewRequest client method url = Inl err \<longrightarrow>
      getStatusAndRedirect client url method = (0, '''')) \<and>
   (NewRequest client method url = Inr req \<and> Do client (closing req) = Failed resp err \<longrightarrow>
      getStatusAndRedirect client url method = (0, '''')) \<and>
   (fst (getStatusAndRedirect client url method) = 0 \<longrightarrow>
      snd (getStatusAndRedirect client url method) = '''')"
proof -
  have "snd (getStatusAndRedirect client url method) = ''''"
    if "fst (getStatusAndRedirect client url method) = 0"
    using that getStatusAndRedirect_cases [of client url _ 0
        "snd (getStatusAndRedirect client url method)"]
    by (cases "getStatusAndRedirect client url method") auto
  then show ?thesis by (simp add: getStatusAndRedirect_def)
qed

theorem failure_gives_sentinel_witness:
  "getStatusAndRedirect (rejecting ''net/http: invalid method'') ''http://foo.test'' ''G E T'' = (0, '''') \<and>
   getStatusAndRedirect (failing ''context deadline exceeded'') ''http://foo.test'' ''GET'' = (0, '''') \<and>
   getStatusAndRedirect (responding 0 [''Location'' \<mapsto> [''https://foo.test/'']])
     ''http://foo.test'' ''GET'' = (0, '''')"
  using failure_gives_sentinel [of "rejecting ''net/http: invalid method''" "''G E T''"
      "''http://foo.test''" "''net/http: invalid method''"]
    failure_gives_sentinel [of "failing ''context deadline exceeded''" "''GET''"
      "''http://foo.test''" "''context deadline exceeded''"
      "\<lparr>Method = ''GET'', Target = ''http://foo.test'', ReqHeader = [], Close = False\<rparr>" None]
    failure_gives_sentinel [of "responding 0 [''Location'' \<mapsto> [''https://foo.test/'']]" "''GET''"
      "''http://foo.test''"]
  by (simp add: getStatusAndRedirect_def rejecting_def failing_def responding_def request_def
      closing_def)

section \<open>Properties of the aggregator and of the report\<close>

lemma digit_val_digit: "d < 10 \<Longrightarrow> digit_val (digit d) = d"
proof -
  assume "d < 10"
  then have "d \<in> {0,1,2,3,4,5,6,7,8,9}" by auto
  then show ?thesis by (auto simp: digit_val_def digit_def)
qed

lemma undec_dec: "undec (dec n) = n"
proof (induction n rule: dec.induct)
  case (1 n)
  show ?case
  proof (cases "n < 10")
    case True
    then show ?thesis by (simp add: dec.simps [of n] undec_def digit_val_digit)
  next
    case False
    then have "undec (dec (n div 10)) = n div 10" using 1 by simp
    then show ?thesis using False
      by (simp add: dec.simps [of n] undec_def digit_val_digit)
  qed
qed

lemma digit_not_minus: "d < 10 \<Longrightarrow> digit d \<noteq> CHR ''-''"
proof -
  assume "d < 10"
  then have "d \<in> {0,1,2,3,4,5,6,7,8,9}" by auto
  then show ?thesis by (auto simp: digit_def)
qed

lemma hd_dec: "dec n \<noteq> [] \<and> hd (dec n) \<noteq> CHR ''-''"
proof (induction n rule: dec.induct)
  case (1 n)
  show ?case
  proof (cases "n < 10")
    case True
    then show ?thesis by (simp add: dec.simps [of n] digit_not_minus)
  next
    case False
    then show ?thesis using 1 by (simp add: dec.simps [of n])
  qed
qed

lemma Sprintf_d_inj: "Sprintf_d i = Sprintf_d j \<Longrightarrow> i = j"
proof -
  assume eq: "Sprintf_d i = Sprintf_d j"
  have neg: "i < 0 \<longleftrightarrow> j < 0"
    using eq hd_dec [of "nat i"] hd_dec [of "nat j"]
    by (auto simp: Sprintf_d_def split: if_splits) (metis list.sel(1))+
  show ?thesis
  proof (cases "i < 0")
    case True
    with neg eq have "dec (nat (- i)) = dec (nat (- j))" by (simp add: Sprintf_d_def)
    then have "undec (dec (nat (- i))) = undec (dec (nat (- j)))" by simp
    then show ?thesis using True neg by (simp add: undec_dec)
  next
    case False
    with neg eq have "dec (nat i) = dec (nat j)" by (simp add: Sprintf_d_def)
    then have "undec (dec (nat i)) = undec (dec (nat j))" by simp
    then show ?thesis using False neg by (simp add: undec_dec)
  qed
qed

lemma bucket_collect:
  "bucket (collect rs res) code =
     (if StatusCode res = code then bucket rs code @ [res] else bucket rs code)"
  by (simp add: bucket_def collect_def update_conv')

lemma bucket_foldl_collect:
  "bucket (foldl collect acc rs) code = bucket acc code @ filter (\<lambda>r. StatusCode r = code) rs"
  by (induction rs arbitrary: acc) (auto simp: bucket_collect)

lemma keys_collect: "fst ` set (collect rs res) = insert (StatusCode res) (fst ` set rs)"
  by (simp add: collect_def dom_update)

lemma keys_foldl_collect:
  "fst ` set (foldl collect acc rs) = fst ` set acc \<union> StatusCode ` set rs"
  by (induction rs arbitrary: acc) (auto simp: keys_collect)

lemma distinct_collect: "distinct (map fst rs) \<Longrightarrow> distinct (map fst (collect rs res))"
  by (simp add: collect_def distinct_update)

lemma distinct_foldl_collect:
  "distinct (map fst acc) \<Longrightarrow> distinct (map fst (foldl collect acc rs))"
  by (induction rs arbitrary: acc) (auto simp: distinct_collect)

lemma bucket_aggregate: "bucket (aggregate rs) code = filter (\<lambda>r. StatusCode r = code) rs"
  by (simp add: aggregate_def bucket_foldl_collect) (simp add: bucket_def)

lemma keys_aggregate: "fst ` set (aggregate rs) = StatusCode ` set rs"
  by (simp add: aggregate_def keys_foldl_collect)

lemma distinct_aggregate: "distinct (map fst (aggregate rs))"
  by (simp add: aggregate_def distinct_foldl_collect)

lemma map_of_aggregate:
  "map_of (aggregate rs) code =
     (if code \<in> StatusCode ` set rs then Some (filter (\<lambda>r. StatusCode r = code) rs) else None)"
proof (cases "map_of (aggregate rs) code")
  case None
  then have "code \<notin> fst ` set (aggregate rs)" by (simp add: map_of_eq_None_iff)
  then show ?thesis using None by (simp add: keys_aggregate)
next
  case (Some l)
  then have "code \<in> fst ` set (aggregate rs)"
    by (meson domI domIff map_of_eq_None_iff)
  moreover have "bucket (aggregate rs) code = l" using Some by (simp add: bucket_def)
  ultimately show ?thesis using Some by (simp add: keys_aggregate bucket_aggregate)
qed

lemma keys_foldl_put:
  "fst ` set (foldl put data rs) = fst ` set data \<union> Sprintf_d ` fst ` set rs"
  by (induction rs arbitrary: data) (auto simp: put_def dom_update)

lemma distinct_foldl_put:
  "distinct (map fst data) \<Longrightarrow> distinct (map fst (foldl put data rs))"
  by (induction rs arbitrary: data) (auto simp: put_def distinct_update)

lemma map_of_foldl_put:
  "distinct (map fst rs) \<Longrightarrow>
   map_of (foldl put data rs) (Sprintf_d code) =
     (case map_of rs code of
        None \<Rightarrow> map_of data (Sprintf_d code)
      | Some resList \<Rightarrow> Some (entries code resList))"
proof (induction rs arbitrary: data)
  case Nil
  then show ?case by simp
next
  case (Cons kv rs)
  obtain k l where kv: "kv = (k, l)" by (cases kv)
  have d: "distinct (map fst rs)" and k: "k \<notin> fst ` set rs"
    using Cons.prems kv by auto
  have none: "map_of rs k = None" using k by (simp add: map_of_eq_None_iff)
  show ?case
  proof (cases "k = code")
    case True
    then show ?thesis using Cons.IH [OF d] none kv
      by (simp add: put_def update_conv')
  next
    case False
    then have "Sprintf_d k \<noteq> Sprintf_d code" using Sprintf_d_inj by blast
    then show ?thesis using Cons.IH [OF d] False kv
      by (simp add: put_def update_conv' split: option.splits)
  qed
qed

lemma doc0_written: "writeJSONFile FileWritten (aggregate arrivals0) = Some doc0"
  by (simp add: writeJSONFile_def jsonData_def put_def aggregate_def collect_def bucket_def
      arrivals0_def doc0_def entries_def entry_def Sprintf_d_def dec.simps digit_def)

text \<open>
  C6. The document that writeJSONFile writes for the ResultSet aggregated from the
  arrivals \<open>rs\<close> has one key for each status code among \<open>rs\<close> and no other key (the code
  in decimal; different codes have different keys). The key of a code maps to an array
  that holds, for each Result that arrived with the code, in arrival order, the object of
  its url and redirected_url when the code is in [300,400) and its bare URL otherwise, so
  the length of the array is the number of Results with the code.
\<close>

theorem json_document:
  "writeJSONFile FileWritten (aggregate rs) = Some doc \<Longrightarrow>
   distinct (map fst doc) \<and>
   fst ` set doc = Sprintf_d ` StatusCode ` set rs \<and>
   card (fst ` set doc) = card (StatusCode ` set rs) \<and>
   (\<forall>code \<in> StatusCode ` set rs.
      map_of doc (Sprintf_d code) =
        Some (JArray (map (\<lambda>r. if 300 \<le> code \<and> code < 400
                              then JObject [(''url'', JString (URL r)),
                                            (''redirected_url'', JString (RedirectedURL r))]
                              else JString (URL r))
                        (filter (\<lambda>r. StatusCode r = code) rs))) \<and>
      (\<exists>arr. map_of doc (Sprintf_d code) = Some (JArray arr) \<and>
             length arr = length (filter (\<lambda>r. StatusCode r = code) rs)))"
proof -
  assume "writeJSONFile FileWritten (aggregate rs) = Some doc"
  then have doc: "doc = foldl put [] (aggregate rs)"
    by (simp add: writeJSONFile_def jsonData_def)
  have inj: "inj Sprintf_d" by (rule injI) (rule Sprintf_d_inj)
  have d: "distinct (map fst doc)" unfolding doc by (simp add: distinct_foldl_put)
  have k: "fst ` set doc = Sprintf_d ` StatusCode ` set rs"
    unfolding doc by (simp add: keys_foldl_put keys_aggregate)
  have c: "card (fst ` set doc) = card (StatusCode ` set rs)"
    unfolding k using inj by (simp add: card_image inj_on_def)
  have m: "map_of doc (Sprintf_d code) =
        Some (JArray (map (\<lambda>r. if 300 \<le> code \<and> code < 400
                              then JObject [(''url'', JString (URL r)),
                                            (''redirected_url'', JString (RedirectedURL r))]
                              else JString (URL r))
                        (filter (\<lambda>r. StatusCode r = code) rs)))"
    if "code \<in> StatusCode ` set rs" for code
  proof -
    have ne: "filter (\<lambda>r. StatusCode r = code) rs \<noteq> []"
      using that by (auto simp: filter_empty_conv)
    have "map_of doc (Sprintf_d code) = Some (entries code (filter (\<lambda>r. StatusCode r = code) rs))"
      unfolding doc using that
      by (simp add: map_of_foldl_put [OF distinct_aggregate] map_of_aggregate)
    then show ?thesis using ne by (simp add: entries_def entry_def cong: map_cong)
  qed
  have l: "\<exists>arr. map_of doc (Sprintf_d code) = Some (JArray arr) \<and>
             length arr = length (filter (\<lambda>r. StatusCode r = code) rs)"
    if "code \<in> StatusCode ` set rs" for code
    using m [OF that] by simp
  show ?thesis using d k c m l by blast
qed

theorem json_document_witness:
  "writeJSONFile FileWritten (aggregate arrivals0) = Some doc0 \<and>
   fst ` set doc0 = {''200'', ''301''} \<and>
   map_of doc0 ''200'' = Some (JArray [JString ''https://a.test'', JString ''http://a.test'']) \<and>
   map_of doc0 ''301'' = Some (JArray [JObject [(''url'', JString ''http://b.test''),
                                 (''redirected_url'', JString ''https://b.test/'')]]) \<and>
   length (filter (\<lambda>r. StatusCode r = 200) arrivals0) = 2 \<and>
   length (filter (\<lambda>r. StatusCode r = 301) arrivals0) = 1"
  using json_document [OF doc0_written] doc0_written
  by (simp add: arrivals0_def doc0_def Sprintf_d_def dec.simps digit_def)

section \<open>Properties of the pipeline\<close>

subsection \<open>Invariants of runs\<close>

lemma run_invariant_on:
  assumes "run preferHTTPS m s as = Some s'"
    and "I s"
    and "list_all A as"
    and "\<And>t a t'. I t \<Longrightarrow> A a \<Longrightarrow> fire preferHTTPS m t a = Some t' \<Longrightarrow> I t'"
  shows "I s'"
  using assms(1,2,3)
proof (induction as arbitrary: s)
  case Nil
  then show ?case by simp
next
  case (Cons a as)
  then obtain t where t: "fire preferHTTPS m s a = Some t"
    and r: "run preferHTTPS m t as = Some s'"
    by (auto split: option.splits)
  have "A a" and rest: "list_all A as" using Cons.prems(3) by simp_all
  from assms(4) [OF Cons.prems(2) this(1) t] have "I t" .
  with Cons.IH r rest show ?case by blast
qed

lemma run_invariant:
  assumes "run preferHTTPS m s as = Some s'"
    and "I s"
    and "\<And>t a t'. I t \<Longrightarrow> fire preferHTTPS m t a = Some t' \<Longrightarrow> I t'"
  shows "I s'"
proof (rule run_invariant_on [where I = I and A = "\<lambda>a. True", OF assms(1,2)])
  show "list_all (\<lambda>a. True) as" by (simp add: list_all_iff)
next
  fix t a t'
  assume "I t" "fire preferHTTPS m t a = Some t'"
  then show "I t'" by (rule assms(3))
qed

lemma all_update: "list_all P xs \<Longrightarrow> P x \<Longrightarrow> list_all P (xs[i := x])"
  by (auto simp: list_all_iff dest: set_update_subset_insert [THEN subsetD])

lemma mem_update: "y \<in> set (xs[i := x]) \<Longrightarrow> y = x \<or> y \<in> set xs"
  using set_update_subset_insert [of xs i x] by auto

subsection \<open>The order of the shutdown\<close>

lemma fire_ordered:
  "fire preferHTTPS m s a = Some s' \<Longrightarrow> ordered s \<Longrightarrow> ordered s'"
proof (cases a)
  case (SendHTTPS i client)
  then show "fire preferHTTPS m s a = Some s' \<Longrightarrow> ordered s \<Longrightarrow> ordered s'"
    by (auto simp: fire_def main_send_def panic_def ordered_def list_all_length nth_list_update
        split: if_splits Main.splits list.splits)
next
  case (SendHTTP j client)
  then show "fire preferHTTPS m s a = Some s' \<Longrightarrow> ordered s \<Longrightarrow> ordered s'"
    by (auto simp: fire_def main_send_def panic_def ordered_def list_all_length nth_list_update
        http_receive_def split: if_splits Main.splits list.splits)
next
  case CloseHTTPS
  then show "fire preferHTTPS m s a = Some s' \<Longrightarrow> ordered s \<Longrightarrow> ordered s'"
    by (auto simp: fire_def main_close_def ordered_def list_all_length nth_list_update
        split: if_splits Main.splits list.splits)
next
  case (EmitHTTPS i)
  then show "fire preferHTTPS m s a = Some s' \<Longrightarrow> ordered s \<Longrightarrow> ordered s'"
    by (auto simp: fire_def https_emit_def panic_def ordered_def list_all_length nth_list_update
        split: if_splits HTTPSWorker.splits)
next
  case (Forward i j client)
  then show "fire preferHTTPS m s a = Some s' \<Longrightarrow> ordered s \<Longrightarrow> ordered s'"
    by (auto simp: fire_def https_forward_def panic_def ordered_def list_all_length
        nth_list_update http_receive_def split: if_splits HTTPSWorker.splits)
next
  case (ReturnHTTPS i)
  then show "fire preferHTTPS m s a = Some s' \<Longrightarrow> ordered s \<Longrightarrow> ordered s'"
    by (auto simp: fire_def https_return_def ordered_def list_all_length nth_list_update
        split: if_splits)
next
  case (EmitHTTP j)
  then show "fire preferHTTPS m s a = Some s' \<Longrightarrow> ordered s \<Longrightarrow> ordered s'"
    by (auto simp: fire_def http_emit_def panic_def ordered_def list_all_length nth_list_update
        split: if_splits HTTPWorker.splits)
next
  case (ReturnHTTP j)
  then show "fire preferHTTPS m s a = Some s' \<Longrightarrow> ordered s \<Longrightarrow> ordered s'"
    by (auto simp: fire_def http_return_def ordered_def list_all_length nth_list_update
        split: if_splits)
next
  case CloseHTTP
  then show "fire preferHTTPS m s a = Some s' \<Longrightarrow> ordered s \<Longrightarrow> ordered s'"
    by (auto simp: fire_def close_httpURLs_def ordered_def split: if_splits)
next
  case CloseOutput
  then show "fire preferHTTPS m s a = Some s' \<Longrightarrow> ordered s \<Longrightarrow> ordered s'"
    by (auto simp: fire_def close_output_def ordered_def split: if_splits)
next
  case Exit
  then show "fire preferHTTPS m s a = Some s' \<Longrightarrow> ordered s \<Longrightarrow> ordered s'"
    by (auto simp: fire_def main_exit_def ordered_def split: if_splits)
qed

lemma fire_drained:
  "fire preferHTTPS m s a = Some s' \<Longrightarrow> drained s \<Longrightarrow> drained s'"
proof (cases a)
  case (SendHTTPS i client)
  then show "fire preferHTTPS m s a = Some s' \<Longrightarrow> drained s \<Longrightarrow> drained s'"
    by (auto simp: fire_def main_send_def panic_def drained_def https_received_def
        split: if_splits Main.splits list.splits option.splits dest!: mem_update)
next
  case (SendHTTP j client)
  then show "fire preferHTTPS m s a = Some s' \<Longrightarrow> drained s \<Longrightarrow> drained s'"
    by (auto simp: fire_def main_send_def panic_def drained_def http_receive_def
        http_received_def
        split: if_splits Main.splits list.splits option.splits dest!: mem_update)
next
  case CloseHTTPS
  then show "fire preferHTTPS m s a = Some s' \<Longrightarrow> drained s \<Longrightarrow> drained s'"
    by (auto simp: fire_def main_close_def drained_def split: if_splits Main.splits list.splits)
next
  case (EmitHTTPS i)
  then show "fire preferHTTPS m s a = Some s' \<Longrightarrow> drained s \<Longrightarrow> drained s'"
    by (auto simp: fire_def https_emit_def panic_def drained_def
        split: if_splits HTTPSWorker.splits dest!: mem_update)
next
  case (Forward i j client)
  then show "fire preferHTTPS m s a = Some s' \<Longrightarrow> drained s \<Longrightarrow> drained s'"
    by (auto simp: fire_def https_forward_def panic_def drained_def http_receive_def
        http_received_def
        split: if_splits HTTPSWorker.splits option.splits dest!: mem_update)
next
  case (ReturnHTTPS i)
  then show "fire preferHTTPS m s a = Some s' \<Longrightarrow> drained s \<Longrightarrow> drained s'"
    by (auto simp: fire_def https_return_def drained_def split: if_splits dest!: mem_update)
next
  case (EmitHTTP j)
  then show "fire preferHTTPS m s a = Some s' \<Longrightarrow> drained s \<Longrightarrow> drained s'"
    by (auto simp: fire_def http_emit_def panic_def drained_def
        split: if_splits HTTPWorker.splits dest!: mem_update)
next
  case (ReturnHTTP j)
  then show "fire preferHTTPS m s a = Some s' \<Longrightarrow> drained s \<Longrightarrow> drained s'"
    by (auto simp: fire_def http_return_def drained_def split: if_splits dest!: mem_update)
next
  case CloseHTTP
  then show "fire preferHTTPS m s a = Some s' \<Longrightarrow> drained s \<Longrightarrow> drained s'"
    by (auto simp: fire_def close_httpURLs_def drained_def split: if_splits)
next
  case CloseOutput
  then show "fire preferHTTPS m s a = Some s' \<Longrightarrow> drained s \<Longrightarrow> drained s'"
    by (auto simp: fire_def close_output_def drained_def split: if_splits)
next
  case Exit
  then show "fire preferHTTPS m s a = Some s' \<Longrightarrow> drained s \<Longrightarrow> drained s'"
    by (auto simp: fire_def main_exit_def drained_def split: if_splits)
qed

lemma fire_pools:
  "fire preferHTTPS m s a = Some s' \<Longrightarrow> pools n s \<Longrightarrow> pools n s'"
  by (cases a)
    (auto simp: fire_def main_send_def main_close_def https_emit_def https_forward_def
      https_return_def http_emit_def http_return_def close_httpURLs_def close_output_def
      main_exit_def http_receive_def panic_def pools_def
      split: if_splits Main.splits list.splits HTTPSWorker.splits HTTPWorker.splits)

lemma init_ordered: "ordered (init concurrency sends)"
  by (simp add: ordered_def init_def)

lemma init_drained: "drained (init concurrency sends)"
  by (simp add: drained_def init_def)

lemma init_pools: "pools (nat (concurrency div 2)) (init concurrency sends)"
  by (simp add: pools_def init_def)

lemma closed_Returned:
  "ordered s \<Longrightarrow> httpURLs_closed s \<Longrightarrow> i < length (httpsWorkers s) \<Longrightarrow>
   httpsWorkers s ! i = Returned"
  by (simp add: ordered_def list_all_length)

lemma closed_HttpReturned:
  "ordered s \<Longrightarrow> output_closed s \<Longrightarrow> j < length (httpWorkers s) \<Longrightarrow>
   httpWorkers s ! j = HttpReturned"
  by (simp add: ordered_def list_all_length)

lemma httpURLs_open_while_scanning:
  assumes "ordered s" "drained s" "pools n s" "0 < n" "main s = Scanning l"
  shows "\<not> httpURLs_closed s"
proof
  assume c: "httpURLs_closed s"
  have len: "0 < length (httpsWorkers s)" using assms(3,4) by (simp add: pools_def)
  then have "httpsWorkers s ! 0 = Returned" using closed_Returned [OF assms(1) c] by simp
  then have "Returned \<in> set (httpsWorkers s)" using len nth_mem by metis
  then have "httpsURLs_closed s" using assms(2) by (simp add: drained_def)
  then show False using assms(2,5) by (simp add: drained_def)
qed

lemma output_closed_all_returned:
  assumes "ordered s" "drained s" "pools n s" "0 < n" "output_closed s"
  shows "list_all (\<lambda>w. w = Returned) (httpsWorkers s) \<and>
         list_all (\<lambda>w. w = HttpReturned) (httpWorkers s)"
proof -
  have len: "0 < length (httpWorkers s)" using assms(3,4) by (simp add: pools_def)
  then have "httpWorkers s ! 0 = HttpReturned"
    using closed_HttpReturned [OF assms(1,5)] by simp
  then have "HttpReturned \<in> set (httpWorkers s)" using len nth_mem by metis
  then have "httpURLs_closed s" using assms(2) by (simp add: drained_def)
  then show ?thesis using assms(1,5) by (simp add: ordered_def)
qed

lemma output_open_while_working:
  assumes "ordered s" "drained s" "pools n s" "i < length (httpsWorkers s)"
    "httpsWorkers s ! i \<noteq> Returned"
  shows "\<not> output_closed s"
proof
  assume c: "output_closed s"
  have "0 < n" using assms(3,4) by (auto simp: pools_def)
  from output_closed_all_returned [OF assms(1,2,3) this c]
  have "httpsWorkers s ! i = Returned" using assms(4) by (simp add: list_all_length)
  then show False using assms(5) by simp
qed

lemma fire_no_panic:
  assumes f: "fire preferHTTPS m s a = Some s'"
    and o: "ordered s" and d: "drained s" and p: "pools n s" and n: "0 < n"
  shows "\<not> panicked s'"
proof (cases a)
  case (SendHTTPS i client)
  then show ?thesis using f d
    by (auto simp: fire_def main_send_def panic_def drained_def
        split: if_splits Main.splits list.splits)
next
  case (SendHTTP j client)
  then show ?thesis using f httpURLs_open_while_scanning [OF o d p n]
    by (auto simp: fire_def main_send_def panic_def http_receive_def
        split: if_splits Main.splits list.splits)
next
  case CloseHTTPS
  then show ?thesis using f
    by (auto simp: fire_def main_close_def split: if_splits Main.splits list.splits)
next
  case (EmitHTTPS i)
  then show ?thesis using f output_open_while_working [OF o d p, of i]
    by (auto simp: fire_def https_emit_def panic_def split: if_splits HTTPSWorker.splits)
next
  case (Forward i j client)
  then show ?thesis using f closed_Returned [OF o, of i]
    by (auto simp: fire_def https_forward_def panic_def http_receive_def
        split: if_splits HTTPSWorker.splits)
next
  case (ReturnHTTPS i)
  then show ?thesis using f by (auto simp: fire_def https_return_def split: if_splits)
next
  case (EmitHTTP j)
  then show ?thesis using f closed_HttpReturned [OF o, of j]
    by (auto simp: fire_def http_emit_def panic_def split: if_splits HTTPWorker.splits)
next
  case (ReturnHTTP j)
  then show ?thesis using f by (auto simp: fire_def http_return_def split: if_splits)
next
  case CloseHTTP
  then show ?thesis using f by (auto simp: fire_def close_httpURLs_def split: if_splits)
next
  case CloseOutput
  then show ?thesis using f by (auto simp: fire_def close_output_def split: if_splits)
next
  case Exit
  then show ?thesis using f by (auto simp: fire_def main_exit_def split: if_splits)
qed

lemma fire_shutdown_inv:
  assumes n: "0 < n" and i: "shutdown_inv n s" and f: "fire preferHTTPS m s a = Some s'"
  shows "shutdown_inv n s'"
proof -
  have o: "ordered s" and d: "drained s" and p: "pools n s"
    using i by (simp_all add: shutdown_inv_def)
  show ?thesis
    using fire_ordered [OF f o] fire_drained [OF f d] fire_pools [OF f p]
      fire_no_panic [OF f o d p n]
    by (simp add: shutdown_inv_def)
qed

text \<open>
  For every concurrency, in every state of every run: \<open>httpURLs\<close> is closed only when all
  HTTPS workers have returned, and \<open>output\<close> only when all HTTP workers have returned.
\<close>

lemma shutdown_ordered:
  assumes r: "run preferHTTPS m (init concurrency sends) as = Some s"
  shows "ordered s"
  using run_invariant [OF r, of ordered, OF init_ordered] fire_ordered by blast

text \<open>
  With a concurrency of 2 or more (a worker in each pool) no run sends on a closed
  channel, and when the main goroutine has left, every worker has returned: no send is
  left undone.
\<close>

lemma shutdown_safe:
  assumes c: "2 \<le> concurrency"
    and r: "run preferHTTPS m (init concurrency sends) as = Some s"
  shows "\<not> panicked s \<and>
         (main s = Exited \<longrightarrow>
            list_all (\<lambda>w. w = Returned) (httpsWorkers s) \<and>
            list_all (\<lambda>w. w = HttpReturned) (httpWorkers s))"
proof -
  have n: "0 < nat (concurrency div 2)" using c by simp
  have i: "shutdown_inv (nat (concurrency div 2)) (init concurrency sends)"
    by (simp add: shutdown_inv_def init_ordered init_drained init_pools) (simp add: init_def)
  have inv: "shutdown_inv (nat (concurrency div 2)) s"
    using run_invariant [OF r, of "shutdown_inv (nat (concurrency div 2))", OF i]
      fire_shutdown_inv [OF n] by blast
  then have o: "ordered s" and d: "drained s" and p: "pools (nat (concurrency div 2)) s"
    by (simp_all add: shutdown_inv_def)
  have "list_all (\<lambda>w. w = Returned) (httpsWorkers s) \<and>
        list_all (\<lambda>w. w = HttpReturned) (httpWorkers s)" if "main s = Exited"
  proof -
    have "output_closed s" using d that by (simp add: drained_def)
    then show ?thesis by (rule output_closed_all_returned [OF o d p n])
  qed
  then show ?thesis using inv by (simp add: shutdown_inv_def)
qed

subsection \<open>The status codes of the Results\<close>

lemma probe_code:
  "getStatusAndRedirect client url m = (code, loc) \<Longrightarrow> nonneg_status client \<Longrightarrow> 0 \<le> code"
  by (auto simp: getStatusAndRedirect_def nonneg_status_def Let_def
      split: sum.splits DoResult.splits)

lemma https_probe_nonzero: "https_probe client m url = Some r \<Longrightarrow> StatusCode r \<noteq> 0"
  by (auto simp: https_probe_def Let_def split: prod.splits if_splits)

lemma http_probe_nonzero: "http_probe client m url = Some r \<Longrightarrow> StatusCode r \<noteq> 0"
  by (auto simp: http_probe_def Let_def split: prod.splits if_splits)

lemma https_probe_positive:
  "https_probe client m url = Some r \<Longrightarrow> nonneg_status client \<Longrightarrow> 0 < StatusCode r"
  by (auto simp: https_probe_def Let_def split: prod.splits if_splits dest: probe_code)

lemma http_probe_positive:
  "http_probe client m url = Some r \<Longrightarrow> nonneg_status client \<Longrightarrow> 0 < StatusCode r"
  by (auto simp: http_probe_def Let_def split: prod.splits if_splits dest: probe_code)

lemma update_all: "list_all Q al \<Longrightarrow> Q (k, v) \<Longrightarrow> list_all Q (AList.update k v al)"
  by (induction al) auto

lemma bucket_same:
  assumes "list_all (bucket_ok P) rs"
  shows "list_all (\<lambda>r. StatusCode r = code) (bucket rs code)"
proof (cases "map_of rs code")
  case None
  then show ?thesis by (simp add: bucket_def)
next
  case (Some l)
  then have "(code, l) \<in> set rs" by (rule map_of_SomeD)
  then have "bucket_ok P (code, l)" using assms by (simp add: list_all_iff)
  then show ?thesis using Some by (simp add: bucket_def bucket_ok_def)
qed

lemma collect_ok:
  "list_all (bucket_ok P) rs \<Longrightarrow> P (StatusCode res) \<Longrightarrow> list_all (bucket_ok P) (collect rs res)"
  unfolding collect_def using bucket_same [of P rs "StatusCode res"]
  by (intro update_all) (simp_all add: bucket_ok_def)

lemma https_received_ok:
  "(\<And>r. https_probe client m url = Some r \<Longrightarrow> P (StatusCode r)) \<Longrightarrow>
   https_ok P (https_received client m url)"
  by (simp add: https_received_def https_ok_def split: option.splits)

lemma http_received_ok:
  "(\<And>r. http_probe client m url = Some r \<Longrightarrow> P (StatusCode r)) \<Longrightarrow>
   http_ok P (http_received client m url)"
  by (simp add: http_received_def http_ok_def split: option.splits)

lemma nth_https_ok:
  "list_all (https_ok P) ws \<Longrightarrow> i < length ws \<Longrightarrow> ws ! i = AtOutput res url \<Longrightarrow>
   P (StatusCode res)"
  by (auto simp: list_all_length https_ok_def split: HTTPSWorker.splits)

lemma nth_http_ok:
  "list_all (http_ok P) ws \<Longrightarrow> j < length ws \<Longrightarrow> ws ! j = HttpAtOutput res \<Longrightarrow>
   P (StatusCode res)"
  by (auto simp: list_all_length http_ok_def split: HTTPWorker.splits)

lemma fire_codes_ok:
  assumes f: "fire preferHTTPS m s a = Some s'" and c: "codes_ok P s"
    and q: "answers Q a"
    and hs: "\<And>client url r. Q client \<Longrightarrow> https_probe client m url = Some r \<Longrightarrow> P (StatusCode r)"
    and h: "\<And>client url r. Q client \<Longrightarrow> http_probe client m url = Some r \<Longrightarrow> P (StatusCode r)"
  shows "codes_ok P s'"
proof (cases a)
  case (SendHTTPS i client)
  then have "Q client" using q by (simp add: answers_def)
  then have "https_ok P (https_received client m url)" for url
    using hs by (intro https_received_ok) blast
  then show ?thesis using f c SendHTTPS
    by (auto simp: fire_def main_send_def panic_def codes_ok_def all_update
        split: if_splits Main.splits list.splits)
next
  case (SendHTTP j client)
  then have "Q client" using q by (simp add: answers_def)
  then have "http_ok P (http_received client m url)" for url
    using h by (intro http_received_ok) blast
  then show ?thesis using f c SendHTTP
    by (auto simp: fire_def main_send_def panic_def codes_ok_def http_receive_def all_update
        split: if_splits Main.splits list.splits)
next
  case CloseHTTPS
  then show ?thesis using f c
    by (auto simp: fire_def main_close_def codes_ok_def split: if_splits Main.splits list.splits)
next
  case (EmitHTTPS i)
  have w: "https_ok P AtRange" "https_ok P (AtForward url)" for url
    by (simp_all add: https_ok_def)
  show ?thesis using f c EmitHTTPS w
    by (auto simp: fire_def https_emit_def panic_def codes_ok_def
        all_update collect_ok nth_https_ok
        split: if_splits HTTPSWorker.splits)
next
  case (Forward i j client)
  then have "Q client" using q by (simp add: answers_def)
  then have "http_ok P (http_received client m url)" for url
    using h by (intro http_received_ok) blast
  moreover have "https_ok P AtRange" by (simp add: https_ok_def)
  ultimately show ?thesis using f c Forward
    by (auto simp: fire_def https_forward_def panic_def codes_ok_def http_receive_def
        all_update split: if_splits HTTPSWorker.splits)
next
  case (ReturnHTTPS i)
  have "https_ok P Returned" by (simp add: https_ok_def)
  then show ?thesis using f c ReturnHTTPS
    by (auto simp: fire_def https_return_def codes_ok_def all_update split: if_splits)
next
  case (EmitHTTP j)
  have "http_ok P HttpAtRange" by (simp add: http_ok_def)
  then show ?thesis using f c EmitHTTP
    by (auto simp: fire_def http_emit_def panic_def codes_ok_def
        all_update collect_ok nth_http_ok
        split: if_splits HTTPWorker.splits)
next
  case (ReturnHTTP j)
  have "http_ok P HttpReturned" by (simp add: http_ok_def)
  then show ?thesis using f c ReturnHTTP
    by (auto simp: fire_def http_return_def codes_ok_def all_update split: if_splits)
next
  case CloseHTTP
  then show ?thesis using f c
    by (auto simp: fire_def close_httpURLs_def codes_ok_def split: if_splits)
next
  case CloseOutput
  then show ?thesis using f c
    by (auto simp: fire_def close_output_def codes_ok_def split: if_splits)
next
  case Exit
  then show ?thesis using f c
    by (auto simp: fire_def main_exit_def codes_ok_def split: if_splits)
qed

lemma init_codes_ok: "codes_ok P (init concurrency sends)"
  by (simp add: codes_ok_def init_def https_ok_def http_ok_def list_all_length)

lemma run_codes_ok:
  assumes r: "run preferHTTPS m (init concurrency sends) as = Some s"
    and q: "list_all (answers Q) as"
    and hs: "\<And>client url r. Q client \<Longrightarrow> https_probe client m url = Some r \<Longrightarrow> P (StatusCode r)"
    and h: "\<And>client url r. Q client \<Longrightarrow> http_probe client m url = Some r \<Longrightarrow> P (StatusCode r)"
  shows "codes_ok P s"
proof (rule run_invariant_on [where I = "codes_ok P" and A = "answers Q", OF r init_codes_ok q])
  fix t a t'
  assume "codes_ok P t" "answers Q a" "fire preferHTTPS m t a = Some t'"
  then show "codes_ok P t'" using fire_codes_ok [of preferHTTPS m t a t' P Q] hs h by blast
qed

lemma codes_ok_results:
  assumes "codes_ok P s" and "(code, resList) \<in> set (results s)"
  shows "P code \<and> (r \<in> set resList \<longrightarrow> StatusCode r = code)"
proof -
  have "list_all (bucket_ok P) (results s)" using assms(1) by (simp add: codes_ok_def)
  then have "bucket_ok P (code, resList)" using assms(2) by (simp add: list_all_iff)
  then show ?thesis by (simp add: bucket_ok_def list_all_iff)
qed

lemma run0_state0:
  "run True ''GET'' (init 2 (scan_sends False [] [''example.com''])) run0 = Some state0"
  by (simp add: run0_def state0_def fire_defs eval_defs)

text \<open>
  C3. A worker builds a Result exactly when the status code the prober returned is not 0.
  So in every state of every run the ResultSet has no key 0, every Result in it is filed
  under its own status code, and that code is not 0; it is greater than 0 when the
  responses of the network carry no negative status code (as those of \<^verbatim>\<open>net/http\<close> do).
\<close>

theorem emitted_status_nonzero:
  "run preferHTTPS m (init concurrency sends) as = Some s \<Longrightarrow>
   0 \<notin> fst ` set (results s) \<and>
   ((code, resList) \<in> set (results s) \<and> r \<in> set resList \<longrightarrow>
      StatusCode r = code \<and> StatusCode r \<noteq> 0 \<and>
      (list_all (answers nonneg_status) as \<longrightarrow> 0 < StatusCode r)) \<and>
   (https_probe client m url \<noteq> None \<longleftrightarrow>
      fst (getStatusAndRedirect client (''https://'' @ url) m) \<noteq> 0) \<and>
   (http_probe client m url \<noteq> None \<longleftrightarrow>
      fst (getStatusAndRedirect client (''http://'' @ url) m) \<noteq> 0)"
proof -
  assume r: "run preferHTTPS m (init concurrency sends) as = Some s"
  have t: "list_all (answers (\<lambda>c. True)) as"
    by (simp add: list_all_iff answers_def split: Action.splits)
  have nz: "codes_ok (\<lambda>c. c \<noteq> 0) s"
    using run_codes_ok [OF r t, of "\<lambda>c. c \<noteq> 0"] https_probe_nonzero http_probe_nonzero
    by blast
  have pos: "codes_ok (\<lambda>c. 0 < c) s" if "list_all (answers nonneg_status) as"
    using run_codes_ok [OF r that, of "\<lambda>c. 0 < c"] https_probe_positive http_probe_positive
    by blast
  have a: "0 \<notin> fst ` set (results s)"
  proof
    assume "0 \<in> fst ` set (results s)"
    then obtain l where "(0, l) \<in> set (results s)" by auto
    from codes_ok_results [OF nz this] show False by simp
  qed
  have c: "(code, resList) \<in> set (results s) \<and> r \<in> set resList \<longrightarrow>
      StatusCode r = code \<and> StatusCode r \<noteq> 0 \<and>
      (list_all (answers nonneg_status) as \<longrightarrow> 0 < StatusCode r)"
  proof
    assume h: "(code, resList) \<in> set (results s) \<and> r \<in> set resList"
    then have e: "code \<noteq> 0 \<and> StatusCode r = code"
      using codes_ok_results [OF nz, of code resList r] by simp
    have "0 < StatusCode r" if "list_all (answers nonneg_status) as"
      using codes_ok_results [OF pos [OF that], of code resList r] h by simp
    then show "StatusCode r = code \<and> StatusCode r \<noteq> 0 \<and>
      (list_all (answers nonneg_status) as \<longrightarrow> 0 < StatusCode r)"
      using e by simp
  qed
  have d: "https_probe client m url \<noteq> None \<longleftrightarrow>
      fst (getStatusAndRedirect client (''https://'' @ url) m) \<noteq> 0"
    by (simp add: https_probe_def Let_def split: prod.splits)
  have e: "http_probe client m url \<noteq> None \<longleftrightarrow>
      fst (getStatusAndRedirect client (''http://'' @ url) m) \<noteq> 0"
    by (simp add: http_probe_def Let_def split: prod.splits)
  show ?thesis using a c d e by blast
qed

theorem emitted_status_nonzero_witness:
  "run True ''GET'' (init 2 (scan_sends False [] [''example.com''])) run0 = Some state0 \<and>
   (200, [\<lparr>URL = ''https://example.com'', StatusCode = 200, RedirectedURL = ''''\<rparr>])
     \<in> set (results state0) \<and>
   list_all (answers nonneg_status) run0 \<and>
   0 \<notin> fst ` set (results state0) \<and>
   0 < StatusCode \<lparr>URL = ''https://example.com'', StatusCode = 200, RedirectedURL = ''''\<rparr>"
proof -
  have nn: "list_all (answers nonneg_status) run0"
    by (simp add: run0_def answers_def nonneg_status_def responding_def failing_def)
  have mem: "(200, [\<lparr>URL = ''https://example.com'', StatusCode = 200, RedirectedURL = ''''\<rparr>])
     \<in> set (results state0)"
    by (simp add: state0_def)
  show ?thesis
    using emitted_status_nonzero [OF run0_state0, of 200
        "[\<lparr>URL = ''https://example.com'', StatusCode = 200, RedirectedURL = ''''\<rparr>]"
        "\<lparr>URL = ''https://example.com'', StatusCode = 200, RedirectedURL = ''''\<rparr>"]
      run0_state0 nn mem
    by simp
qed

subsection \<open>The ResultSet is the aggregate of the Results in arrival order\<close>

lemma fire_results:
  "fire preferHTTPS m s a = Some s' \<Longrightarrow>
   results s' = results s \<or> (\<exists>res. results s' = collect (results s) res)"
  by (cases a)
    (auto simp: fire_def main_send_def main_close_def https_emit_def https_forward_def
      https_return_def http_emit_def http_return_def close_httpURLs_def close_output_def
      main_exit_def http_receive_def panic_def
      split: if_splits Main.splits list.splits HTTPSWorker.splits HTTPWorker.splits
        queue.splits)

lemma run_results_aggregate:
  assumes r: "run preferHTTPS m (init concurrency sends) as = Some s"
  shows "\<exists>arrivals. results s = aggregate arrivals"
proof (rule run_invariant [OF r, of "\<lambda>t::State. \<exists>arrivals. results t = aggregate arrivals"])
  show "\<exists>arrivals. results (init concurrency sends) = aggregate arrivals"
    by (rule exI [of _ "[]"]) (simp add: init_def aggregate_def)
next
  fix t :: State and a t'
  assume "\<exists>arrivals. results t = aggregate arrivals"
  then obtain arrivals where ar: "results t = aggregate arrivals" ..
  assume "fire preferHTTPS m t a = Some t'"
  from fire_results [OF this] show "\<exists>arrivals. results t' = aggregate arrivals"
  proof
    assume "results t' = results t"
    then show ?thesis using ar by auto
  next
    assume "\<exists>res. results t' = collect (results t) res"
    then obtain res where "results t' = collect (results t) res" ..
    then have "results t' = aggregate (arrivals @ [res])" using ar by (simp add: aggregate_def)
    then show ?thesis ..
  qed
qed

subsection \<open>What an HTTPS worker forwards\<close>

text \<open>
  With \<open>preferHTTPS\<close> set, an HTTPS worker that has handed over its Result goes back to
  the head of its loop: it stands at the send on \<open>httpURLs\<close> only after a probe that gave
  no Result.
\<close>

lemma prefer_https_no_forward:
  "fire True m s (EmitHTTPS i) = Some s' \<Longrightarrow> \<not> panicked s' \<Longrightarrow> httpsWorkers s' ! i = AtRange"
  by (auto simp: fire_def https_emit_def panic_def split: if_splits HTTPSWorker.splits)

lemma forward_after_no_result:
  "https_received client m url = AtForward target \<Longrightarrow>
   https_probe client m url = None \<and> target = url"
  by (auto simp: https_received_def split: option.splits)

subsection \<open>The targets the expander sends on the HTTP queue\<close>

lemma direct_http_step:
  assumes d: "direct_http sends s"
    and p: "set (probed s) \<subseteq> set (probed s')"
    and q: "\<And>t. (httpURLs, t) \<in> set (pending s) \<Longrightarrow>
              (httpURLs, t) \<in> set (pending s') \<or> ''http://'' @ t \<in> set (probed s')"
  shows "direct_http sends s'"
  unfolding direct_http_def list_all_iff
proof
  fix qt
  assume m: "qt \<in> set sends"
  obtain k t where qt: "qt = (k, t)" by (cases qt)
  show "fst qt = httpsURLs \<or> qt \<in> set (pending s') \<or> ''http://'' @ snd qt \<in> set (probed s')"
  proof (cases k)
    case httpsURLs
    then show ?thesis using qt by simp
  next
    case httpURLs
    have "qt \<in> set (pending s) \<or> ''http://'' @ snd qt \<in> set (probed s)"
      using d m qt httpURLs by (auto simp: direct_http_def list_all_iff)
    then show ?thesis using p q [of t] qt httpURLs by auto
  qed
qed

lemma fire_direct_http:
  assumes f: "fire preferHTTPS m s a = Some s'" and d: "direct_http sends s"
  shows "direct_http sends s'"
proof (rule direct_http_step [OF d])
  show "set (probed s) \<subseteq> set (probed s')"
    using f
    by (cases a)
      (auto simp: fire_def main_send_def main_close_def https_emit_def https_forward_def
        https_return_def http_emit_def http_return_def close_httpURLs_def close_output_def
        main_exit_def http_receive_def panic_def
        split: if_splits Main.splits list.splits HTTPSWorker.splits HTTPWorker.splits
          queue.splits)
next
  fix t
  assume "(httpURLs, t) \<in> set (pending s)"
  then show "(httpURLs, t) \<in> set (pending s') \<or> ''http://'' @ t \<in> set (probed s')"
    using f
    by (cases a)
      (auto simp: fire_def main_send_def main_close_def https_emit_def https_forward_def
        https_return_def http_emit_def http_return_def close_httpURLs_def close_output_def
        main_exit_def http_receive_def panic_def pending_def
        split: if_splits Main.splits list.splits HTTPSWorker.splits HTTPWorker.splits
          queue.splits)
qed

text \<open>
  Whatever \<open>preferHTTPS\<close> is and whatever the HTTPS probes return: once the main goroutine
  has done its sends, every target that the expander sent on \<open>httpURLs\<close> has been probed
  over HTTP.
\<close>

lemma direct_http_probed:
  assumes r: "run preferHTTPS m (init concurrency sends) as = Some s"
    and fin: "pending s = []"
    and t: "(httpURLs, target) \<in> set sends"
  shows "''http://'' @ target \<in> set (probed s)"
proof -
  have "direct_http sends (init concurrency sends)"
    by (simp add: direct_http_def init_def pending_def list_all_iff)
  then have "direct_http sends s"
    using run_invariant [OF r, of "direct_http sends"] fire_direct_http by blast
  then show ?thesis using fin t by (auto simp: direct_http_def list_all_iff)
qed

text \<open>
  C1. The claim is that with \<open>preferHTTPS\<close> set, a target is probed over HTTP only if
  its HTTPS probe gave no Result. The code breaks it for the default probes. Here the
  only input line is \<open>example.com\<close>, no probe is given and \<open>preferHTTPS\<close> is set; the
  HTTPS probe is answered with status 200 and its Result is filed, and still
  \<open>http://example.com\<close> is probed, because the expander itself has sent the domain on
  \<open>httpURLs\<close> (line 191). This is so in the complete run \<open>run0\<close> with concurrency 2 and
  after the first three steps with the default concurrency 20.
\<close>

theorem prefer_https_default_probes_http:
  "scan_sends False [] [''example.com''] = [(httpsURLs, ''example.com''), (httpURLs, ''example.com'')] \<and>
   run True ''GET'' (init 2 (scan_sends False [] [''example.com''])) run0 = Some state0 \<and>
   main state0 = Exited \<and>
   bucket (results state0) 200 =
     [\<lparr>URL = ''https://example.com'', StatusCode = 200, RedirectedURL = ''''\<rparr>] \<and>
   probed state0 = [''https://example.com'', ''http://example.com''] \<and>
   (case run True ''GET'' (init 20 (scan_sends False [] [''example.com'']))
           [SendHTTPS 0 (responding 200 Map.empty), EmitHTTPS 0,
            SendHTTP 0 (failing ''connection refused'')] of
      None \<Rightarrow> False
    | Some s \<Rightarrow>
        results s = [(200, [\<lparr>URL = ''https://example.com'', StatusCode = 200,
                              RedirectedURL = ''''\<rparr>])] \<and>
        probed s = [''https://example.com'', ''http://example.com''])"
proof -
  have a: "scan_sends False [] [''example.com''] =
      [(httpsURLs, ''example.com''), (httpURLs, ''example.com'')]"
    by (simp add: eval_defs)
  have b: "main state0 = Exited \<and>
      bucket (results state0) 200 =
        [\<lparr>URL = ''https://example.com'', StatusCode = 200, RedirectedURL = ''''\<rparr>] \<and>
      probed state0 = [''https://example.com'', ''http://example.com'']"
    by (simp add: state0_def bucket_def)
  have c: "(case run True ''GET'' (init 20 (scan_sends False [] [''example.com'']))
           [SendHTTPS 0 (responding 200 Map.empty), EmitHTTPS 0,
            SendHTTP 0 (failing ''connection refused'')] of
      None \<Rightarrow> False
    | Some s \<Rightarrow>
        results s = [(200, [\<lparr>URL = ''https://example.com'', StatusCode = 200,
                              RedirectedURL = ''''\<rparr>])] \<and>
        probed s = [''https://example.com'', ''http://example.com''])"
    by (simp add: fire_defs eval_defs)
  show ?thesis using a b c run0_state0 by simp
qed

subsection \<open>A concurrency below 2\<close>

lemma fire_idle:
  "sends \<noteq> [] \<Longrightarrow> fire preferHTTPS m s a = Some s' \<Longrightarrow> idle sends s \<Longrightarrow> idle sends s'"
  by (cases a)
    (auto simp: fire_def main_send_def main_close_def https_emit_def https_forward_def
      https_return_def http_emit_def http_return_def close_httpURLs_def close_output_def
      main_exit_def http_receive_def panic_def idle_def
      split: if_splits Main.splits list.splits HTTPSWorker.splits HTTPWorker.splits
        queue.splits)

text \<open>
  With a concurrency below 2 there is no worker to receive: in every run the main
  goroutine stays at its first send, and nothing is probed.
\<close>

lemma no_workers_stuck:
  assumes c: "concurrency < 2" and ne: "sends \<noteq> []"
    and r: "run preferHTTPS m (init concurrency sends) as = Some s"
  shows "main s = Scanning sends \<and> probed s = [] \<and> results s = []"
proof -
  have "nat (concurrency div 2) = 0" using c by simp
  then have "idle sends (init concurrency sends)" by (simp add: idle_def init_def)
  then have "idle sends s"
    using run_invariant [OF r, of "idle sends"] fire_idle [OF ne] by blast
  then show ?thesis by (simp add: idle_def)
qed

text \<open>
  C4. The claim is that the order of the shutdown keeps every send off a closed channel.
  The code breaks it when the concurrency is below 2. Here the concurrency is 1, the only
  probe is \<open>http:80\<close> and the only input line is \<open>example.com\<close>: there is no worker, so the
  wait for the HTTPS workers returns at once and \<open>httpURLs\<close> is closed, and the
  expander's send of \<open>example.com:80\<close> on \<open>httpURLs\<close> (line 222) is a send on a closed
  channel.
\<close>

theorem no_workers_send_on_closed:
  "scan_sends False [''http:80''] [''example.com''] = [(httpURLs, ''example.com:80'')] \<and>
   httpsWorkers (init 1 (scan_sends False [''http:80''] [''example.com''])) = [] \<and>
   map_option httpURLs_closed
     (run False ''GET'' (init 1 (scan_sends False [''http:80''] [''example.com''])) [CloseHTTP]) =
     Some True \<and>
   map_option panicked
     (run False ''GET'' (init 1 (scan_sends False [''http:80''] [''example.com'']))
        [CloseHTTP, SendHTTP 0 (failing ''connection refused'')]) = Some True"
  by (simp add: fire_defs eval_defs)

end
